theory Spec2Isabelle
  imports Main "HOL-Library.AList"
begin

section \<open>Domain: the Database entity and its value objects\<close>

text \<open>
  \<^verbatim>\<open>type DatabaseType string\<close> and \<^verbatim>\<open>type ConnectionStatus string\<close> are named
  string types: any string can inhabit them (the HTTP handler converts the request's
  text with \<^verbatim>\<open>domain.DatabaseType(req.Type)\<close>), so both are modelled as strings and the
  declared constants as particular strings.
\<close>

type_synonym DatabaseType = string
type_synonym ConnectionStatus = string

definition PostgreSQL :: DatabaseType where "PostgreSQL = ''postgres16.3''"
definition Oracle11g :: DatabaseType where "Oracle11g = ''oracle11g''"
definition Oracle19c :: DatabaseType where "Oracle19c = ''oracle19c''"
definition MariaDB :: DatabaseType where "MariaDB = ''mariadb10.11''"

definition Connected :: ConnectionStatus where "Connected = ''connected''"
definition Disconnected :: ConnectionStatus where "Disconnected = ''disconnected''"
definition Connecting :: ConnectionStatus where "Connecting = ''connecting''"
definition Error :: ConnectionStatus where "Error = ''error''"

text \<open>
  \<^verbatim>\<open>type Database struct\<close>. \<^verbatim>\<open>Port\<close> is a Go \<^verbatim>\<open>int\<close>; it is only compared and
  printed, never computed with, so it is an \<^typ>\<open>int\<close> here.
\<close>

record Database =
  ID :: string
  Name :: string
  Type :: DatabaseType
  Host :: string
  Port :: int
  Schema :: string
  Username :: string
  Password :: string
  Status :: ConnectionStatus

text \<open>
  Errors are values. The sentinel variables of \<^verbatim>\<open>domain/errors.go\<close> are compared by
  identity in Go (\<^verbatim>\<open>switch err { case domain.ErrDatabaseNotFound: ...\<close>), so each is a
  constructor of its own; \<^verbatim>\<open>errors.New(msg)\<close> made on the spot is \<open>ErrorsNew msg\<close>, a
  \<^verbatim>\<open>fmt.Errorf("prefix: %w", err)\<close> is \<open>Errorf prefix err\<close>, the two formatted
  messages of \<^verbatim>\<open>Validate\<close> carry the value they print, the aggregate of
  \<^verbatim>\<open>DisconnectAll\<close> (\<^verbatim>\<open>%v\<close> of an error slice) carries the list, and an error
  that comes out of \<^verbatim>\<open>database/sql\<close> or a driver is a \<open>DriverError\<close>.
\<close>

datatype error =
    ErrDatabaseNotFound
  | ErrDatabaseNotConnected
  | ErrAlreadyConnected
  | ErrConnectionFailed
  | ErrQueryTimeout
  | ErrInvalidQuery
  | ErrQueryFailed
  | ErrInvalidDatabaseType
  | ErrInvalidPort
  | ErrMissingCredentials
  | ErrInternal
  | ErrorsNew string
  | InvalidPortNumber int
  | UnsupportedDatabaseType DatabaseType
  | Errorf string error
  | ErrorfList string "error list"
  | DriverError string

text \<open>\<^verbatim>\<open>func (dt DatabaseType) IsValid() bool\<close>\<close>

definition IsValid :: "DatabaseType \<Rightarrow> bool" where
  "IsValid dt = (dt = PostgreSQL \<or> dt = Oracle11g \<or> dt = Oracle19c \<or> dt = MariaDB)"

text \<open>
  \<^verbatim>\<open>func (db *Database) Validate() error\<close>: the checks in the source's order, the first
  failing one decides the error; \<open>None\<close> is Go's \<^verbatim>\<open>nil\<close>. The body only reads the
  receiver's fields.
\<close>

definition Validate :: "Database \<Rightarrow> error option" where
  "Validate db =
    (if ID db = [] then Some (ErrorsNew ''database ID is required'')
     else if Name db = [] then Some (ErrorsNew ''database name is required'')
     else if Host db = [] then Some (ErrorsNew ''host is required'')
     else if Port db < 1 \<or> Port db > 65535 then Some (InvalidPortNumber (Port db))
     else if Username db = [] then Some (ErrorsNew ''username is required'')
     else if Password db = [] then Some (ErrorsNew ''password is required'')
     else if \<not> IsValid (Type db) then Some (UnsupportedDatabaseType (Type db))
     else None)"

text \<open>\<^verbatim>\<open>func (dt DatabaseType) DefaultPort() int\<close>\<close>

definition DefaultPort :: "DatabaseType \<Rightarrow> int" where
  "DefaultPort dt =
    (if dt = PostgreSQL then 5432
     else if dt = Oracle11g \<or> dt = Oracle19c then 1521
     else if dt = MariaDB then 3306
     else 0)"

text \<open>
  \<^verbatim>\<open>%d\<close> of \<^verbatim>\<open>fmt.Sprintf\<close>: the decimal digits of an integer, with a minus sign
  when it is negative.
\<close>

fun utoa :: "nat \<Rightarrow> string" where
  "utoa n = (if n < 10 then [char_of (48 + n)] else utoa (n div 10) @ [char_of (48 + n mod 10)])"

declare utoa.simps [simp del]

definition itoa :: "int \<Rightarrow> string" where
  "itoa i = (if i < 0 then CHR ''-'' # utoa (nat (- i)) else utoa (nat i))"

text \<open>
  \<^verbatim>\<open>func (db *Database) ConnectionString() string\<close>. The Oracle branch also writes the
  string to the process log, which is outside the model.
\<close>

definition ConnectionString :: "Database \<Rightarrow> string" where
  "ConnectionString db =
    (if Type db = PostgreSQL then
       ''postgres://'' @ Username db @ '':'' @ Password db @ ''@'' @ Host db @ '':''
         @ itoa (Port db) @ ''/'' @ Name db @ ''?sslmode=disable''
     else if Type db = Oracle11g \<or> Type db = Oracle19c then
       (let sid = (if Schema db \<noteq> [] then Schema db else Name db)
        in Username db @ ''/'' @ Password db @ ''@'' @ Host db @ '':'' @ itoa (Port db)
             @ ''/'' @ sid)
     else if Type db = MariaDB then
       Username db @ '':'' @ Password db @ ''@tcp('' @ Host db @ '':'' @ itoa (Port db)
         @ '')/'' @ Name db
     else [])"

text \<open>\<^verbatim>\<open>func (db *Database) CanConnect() bool\<close>\<close>

definition CanConnect :: "Database \<Rightarrow> bool" where
  "CanConnect db = (Host db \<noteq> [] \<and> Port db > 0 \<and> Username db \<noteq> [] \<and> Password db \<noteq> [])"

text \<open>\<^verbatim>\<open>func (db *Database) MaskedPassword() string\<close>\<close>

definition MaskedPassword :: "Database \<Rightarrow> string" where
  "MaskedPassword db = (if length (Password db) = 0 then [] else ''****'')"

text \<open>
  The Database objects live on the heap and are handed around as \<^verbatim>\<open>*domain.Database\<close>:
  the handler allocates one, the service passes the pointer on, the registry stores the
  pointer in its record and returns it again from \<^verbatim>\<open>ListConnections\<close>. The heap maps
  an address to the object there.
\<close>

type_synonym addr = nat
type_synonym heap = "addr \<Rightarrow> Database"

text \<open>
  A method with the pointer receiver \<^verbatim>\<open>(db *Database)\<close> is a call on an address: it
  gets the heap and hands it back. \<^verbatim>\<open>Validate\<close> makes no assignment, so the heap it
  hands back is the one it got.
\<close>

definition Validate_call :: "addr \<Rightarrow> heap \<Rightarrow> error option \<times> heap" where
  "Validate_call p h = (Validate (h p), h)"

section \<open>The driver layer: \<^verbatim>\<open>database/sql\<close> as an environment\<close>

text \<open>
  A \<^verbatim>\<open>*sql.DB\<close> is an opaque handle. What \<^verbatim>\<open>sql.Open\<close>, \<^verbatim>\<open>PingContext\<close>,
  \<^verbatim>\<open>Close\<close> and \<^verbatim>\<open>QueryContext\<close> answer is decided outside the program, and may
  differ from one call to the next (a probe that succeeded can fail later). The
  environment is therefore a record of answer functions that also get the number of
  driver calls made so far; the world counts the calls in \<open>now\<close>. \<open>Clock\<close> is the wall
  clock read at such a moment.
\<close>

type_synonym pool = nat

text \<open>
  The cursor \<^verbatim>\<open>*sql.Rows\<close> of one query: what \<^verbatim>\<open>rows.Columns()\<close> returns, for each
  row that \<^verbatim>\<open>rows.Next()\<close> announces what the driver delivers for it (an error, or
  the row's values), and what \<^verbatim>\<open>rows.Err()\<close> returns after the last row.
\<close>

record 'v sqlrows =
  rows_Columns :: "error + string list"
  rows_Next :: "(error + 'v list) list"
  rows_Err :: "error option"

record 'v sqldriver =
  Open :: "nat \<Rightarrow> string \<Rightarrow> string \<Rightarrow> error + pool"
  PingContext :: "nat \<Rightarrow> pool \<Rightarrow> error option"
  Close :: "nat \<Rightarrow> pool \<Rightarrow> error option"
  QueryContext :: "nat \<Rightarrow> pool \<Rightarrow> string \<Rightarrow> error + 'v sqlrows"
  Clock :: "nat \<Rightarrow> int"

text \<open>
  \<^verbatim>\<open>type QueryResult struct\<close>; a row is a Go \<^verbatim>\<open>map[string]interface{}\<close>, values are
  of any type \<open>'v\<close>.
\<close>

record 'v QueryResult =
  Columns :: "string list"
  Rows :: "(string \<rightharpoonup> 'v) list"
  RowsAffected :: int
  ExecutionTime :: int

section \<open>The connection registry\<close>

datatype Adapter = PostgresAdapter | OracleAdapter

text \<open>\<^verbatim>\<open>type Connection struct\<close>: \<open>DB\<close> is a pointer, the record does not own a copy.\<close>

record Connection =
  DB :: addr
  ConnPool :: pool
  Adapter :: Adapter

text \<open>
  The state the operations run in: the heap of Database objects, the registry's map
  \<^verbatim>\<open>cm.connections\<close>, the handles on which \<^verbatim>\<open>Close\<close> has been called (oldest first),
  and the count of driver calls. The Go map is kept as an association list read with
  \<^const>\<open>map_of\<close>, written with \<^const>\<open>AList.update\<close> and \<^const>\<open>AList.delete\<close>; a
  \<^verbatim>\<open>range\<close> over the map visits the entries in an order Go leaves open, which is the
  list's order here, so a statement proved for every list holds for every order.
  The operations hold \<^verbatim>\<open>cm.mu\<close> while they touch the map; each is one atomic step of
  this sequential model.
\<close>

record world =
  heap :: heap
  connections :: "(string \<times> Connection) list"
  closed :: "pool list"
  now :: nat

definition sql_Open :: "'v sqldriver \<Rightarrow> string \<Rightarrow> string \<Rightarrow> world \<Rightarrow> (error + pool) \<times> world" where
  "sql_Open drv driverName dsn w = (Open drv (now w) driverName dsn, w\<lparr>now := Suc (now w)\<rparr>)"

definition DB_PingContext :: "'v sqldriver \<Rightarrow> pool \<Rightarrow> world \<Rightarrow> error option \<times> world" where
  "DB_PingContext drv conn w = (PingContext drv (now w) conn, w\<lparr>now := Suc (now w)\<rparr>)"

definition DB_Close :: "'v sqldriver \<Rightarrow> pool \<Rightarrow> world \<Rightarrow> error option \<times> world" where
  "DB_Close drv conn w =
     (Close drv (now w) conn, w\<lparr>closed := closed w @ [conn], now := Suc (now w)\<rparr>)"

definition DB_QueryContext ::
  "'v sqldriver \<Rightarrow> pool \<Rightarrow> string \<Rightarrow> world \<Rightarrow> (error + 'v sqlrows) \<times> world" where
  "DB_QueryContext drv conn query w =
     (QueryContext drv (now w) conn query, w\<lparr>now := Suc (now w)\<rparr>)"

text \<open>\<^verbatim>\<open>conn.DB.Status = s\<close>: an assignment through the pointer.\<close>

definition set_Status :: "addr \<Rightarrow> ConnectionStatus \<Rightarrow> world \<Rightarrow> world" where
  "set_Status p s w = w\<lparr>heap := (heap w)(p := (heap w p)\<lparr>Status := s\<rparr>)\<rparr>"

subsection \<open>Vendor adapters\<close>

text \<open>
  \<^verbatim>\<open>func (a *PostgresAdapter) Connect\<close>: open, probe under a 5 s timeout, close the
  handle again when the probe fails (the result of that \<^verbatim>\<open>Close\<close> is dropped).
\<close>

definition PostgresAdapter_Connect ::
  "'v sqldriver \<Rightarrow> addr \<Rightarrow> world \<Rightarrow> (error + pool) \<times> world" where
  "PostgresAdapter_Connect drv db w =
    (let dsn = ConnectionString (heap w db) in
     case sql_Open drv ''postgres'' dsn w of
       (Inl err, w1) \<Rightarrow> (Inl (Errorf ''sql.Open failed'' err), w1)
     | (Inr conn, w1) \<Rightarrow>
         (case DB_PingContext drv conn w1 of
            (Some err, w2) \<Rightarrow> (Inl (Errorf ''ping failed'' err), snd (DB_Close drv conn w2))
          | (None, w2) \<Rightarrow> (Inr conn, w2)))"

text \<open>
  \<^verbatim>\<open>func (a *OracleAdapter) Connect\<close>: its own DSN, with the schema as SID when there
  is one; the two \<^verbatim>\<open>fmt.Printf\<close> lines go to standard output and are not modelled.
\<close>

definition OracleAdapter_Connect ::
  "'v sqldriver \<Rightarrow> addr \<Rightarrow> world \<Rightarrow> (error + pool) \<times> world" where
  "OracleAdapter_Connect drv db w =
    (let sid = (if Schema (heap w db) \<noteq> [] then Schema (heap w db) else Name (heap w db));
         dsn = ''oracle://'' @ Username (heap w db) @ '':'' @ Password (heap w db) @ ''@''
                 @ Host (heap w db) @ '':'' @ itoa (Port (heap w db)) @ ''/'' @ sid in
     case sql_Open drv ''oracle'' dsn w of
       (Inl err, w1) \<Rightarrow> (Inl (Errorf ''sql.Open failed'' err), w1)
     | (Inr conn, w1) \<Rightarrow>
         (case DB_PingContext drv conn w1 of
            (Some err, w2) \<Rightarrow> (Inl (Errorf ''ping failed'' err), snd (DB_Close drv conn w2))
          | (None, w2) \<Rightarrow> (Inr conn, w2)))"

text \<open>
  \<^verbatim>\<open>rows.Scan(valuePtrs...)\<close> with \<^verbatim>\<open>len(columns)\<close> destinations of type
  \<^verbatim>\<open>*interface{}\<close>: it fails when the driver failed on the row, and
  \<^verbatim>\<open>database/sql\<close> refuses a destination count that differs from the row's width;
  otherwise \<^verbatim>\<open>values\<close> holds the row.
\<close>

definition Scan :: "nat \<Rightarrow> error + 'v list \<Rightarrow> error + 'v list" where
  "Scan n r =
     (case r of
        Inl err \<Rightarrow> Inl err
      | Inr vs \<Rightarrow>
          if length vs \<noteq> n
          then Inl (DriverError ''sql: wrong number of destination arguments in Scan'')
          else Inr vs)"

text \<open>
  \<^verbatim>\<open>for i, col := range columns { row[col] = values[i] }\<close>, from index \<open>i\<close> on; it is
  only run on \<open>values\<close> as long as \<open>columns\<close>.
\<close>

fun fill_row :: "(string \<rightharpoonup> 'v) \<Rightarrow> nat \<Rightarrow> string list \<Rightarrow> 'v list \<Rightarrow> (string \<rightharpoonup> 'v)" where
  "fill_row row i [] values = row"
| "fill_row row i (col # cols) values = fill_row (row(col \<mapsto> values ! i)) (Suc i) cols values"

text \<open>The \<^verbatim>\<open>for rows.Next()\<close> loop: the first failing \<^verbatim>\<open>Scan\<close> ends the query.\<close>

fun scan_rows ::
  "string list \<Rightarrow> (error + 'v list) list \<Rightarrow> (string \<rightharpoonup> 'v) list \<Rightarrow> error + (string \<rightharpoonup> 'v) list" where
  "scan_rows columns [] results = Inr results"
| "scan_rows columns (r # rest) results =
     (case Scan (length columns) r of
        Inl err \<Rightarrow> Inl (Errorf ''failed to scan row'' err)
      | Inr values \<Rightarrow> scan_rows columns rest (results @ [fill_row Map.empty 0 columns values]))"

text \<open>
  \<^verbatim>\<open>func (a *PostgresAdapter) ExecuteQuery\<close> and \<^verbatim>\<open>func (a *OracleAdapter) ExecuteQuery\<close>
  have the same body, line for line.
\<close>

definition Adapter_ExecuteQuery_body ::
  "'v sqldriver \<Rightarrow> pool \<Rightarrow> string \<Rightarrow> world \<Rightarrow> (error + 'v QueryResult) \<times> world" where
  "Adapter_ExecuteQuery_body drv conn query w =
    (let start = Clock drv (now w) in
     case DB_QueryContext drv conn query w of
       (Inl err, w1) \<Rightarrow> (Inl (Errorf ''query execution failed'' err), w1)
     | (Inr rows, w1) \<Rightarrow>
         (case rows_Columns rows of
            Inl err \<Rightarrow> (Inl (Errorf ''failed to get columns'' err), w1)
          | Inr columns \<Rightarrow>
              (case scan_rows columns (rows_Next rows) [] of
                 Inl err \<Rightarrow> (Inl err, w1)
               | Inr results \<Rightarrow>
                   (case rows_Err rows of
                      Some err \<Rightarrow> (Inl (Errorf ''error during row iteration'' err), w1)
                    | None \<Rightarrow>
                        (Inr \<lparr>Columns = columns, Rows = results,
                              RowsAffected = int (length results),
                              ExecutionTime = Clock drv (now w1) - start\<rparr>, w1)))))"

definition PostgresAdapter_ExecuteQuery ::
  "'v sqldriver \<Rightarrow> pool \<Rightarrow> string \<Rightarrow> world \<Rightarrow> (error + 'v QueryResult) \<times> world" where
  "PostgresAdapter_ExecuteQuery = Adapter_ExecuteQuery_body"

definition OracleAdapter_ExecuteQuery ::
  "'v sqldriver \<Rightarrow> pool \<Rightarrow> string \<Rightarrow> world \<Rightarrow> (error + 'v QueryResult) \<times> world" where
  "OracleAdapter_ExecuteQuery = Adapter_ExecuteQuery_body"

text \<open>Calls through the \<^verbatim>\<open>Adapter\<close> interface dispatch on the dynamic type.\<close>

definition Adapter_Connect ::
  "Adapter \<Rightarrow> 'v sqldriver \<Rightarrow> addr \<Rightarrow> world \<Rightarrow> (error + pool) \<times> world" where
  "Adapter_Connect a =
     (case a of PostgresAdapter \<Rightarrow> PostgresAdapter_Connect | OracleAdapter \<Rightarrow> OracleAdapter_Connect)"

definition Adapter_ExecuteQuery ::
  "Adapter \<Rightarrow> 'v sqldriver \<Rightarrow> pool \<Rightarrow> string \<Rightarrow> world \<Rightarrow> (error + 'v QueryResult) \<times> world" where
  "Adapter_ExecuteQuery a =
     (case a of PostgresAdapter \<Rightarrow> PostgresAdapter_ExecuteQuery
              | OracleAdapter \<Rightarrow> OracleAdapter_ExecuteQuery)"

subsection \<open>\<^verbatim>\<open>ConnectionManager\<close>\<close>

text \<open>
  \<^verbatim>\<open>func (cm *ConnectionManager) createAdapter\<close>: three cases and the default; the
  case for \<^verbatim>\<open>domain.MariaDB\<close> is commented out in the source.
\<close>

definition createAdapter :: "DatabaseType \<Rightarrow> error + Adapter" where
  "createAdapter dbType =
    (if dbType = PostgreSQL then Inr PostgresAdapter
     else if dbType = Oracle19c then Inr OracleAdapter
     else if dbType = Oracle11g then Inr OracleAdapter
     else Inl ErrInvalidDatabaseType)"

text \<open>
  \<^verbatim>\<open>func (cm *ConnectionManager) Connect\<close>. The three pool settings
  (\<^verbatim>\<open>SetMaxOpenConns\<close>, \<^verbatim>\<open>SetMaxIdleConns\<close>, \<^verbatim>\<open>SetConnMaxLifetime\<close>) change
  nothing the model observes.
\<close>

definition ConnectionManager_Connect ::
  "'v sqldriver \<Rightarrow> addr \<Rightarrow> world \<Rightarrow> error option \<times> world" where
  "ConnectionManager_Connect drv db w =
    (if map_of (connections w) (ID (heap w db)) \<noteq> None then (Some ErrAlreadyConnected, w)
     else
       case createAdapter (Type (heap w db)) of
         Inl err \<Rightarrow> (Some err, w)
       | Inr adapter \<Rightarrow>
           (case Adapter_Connect adapter drv db w of
              (Inl err, w1) \<Rightarrow>
                (Some (Errorf (''failed to connect to '' @ ID (heap w db)) err), w1)
            | (Inr connPool, w1) \<Rightarrow>
                (case DB_PingContext drv connPool w1 of
                   (Some err, w2) \<Rightarrow>
                     (Some (Errorf (''ping failed for '' @ ID (heap w db)) err),
                      snd (DB_Close drv connPool w2))
                 | (None, w2) \<Rightarrow>
                     (None,
                      set_Status db Connected
                        (w2\<lparr>connections :=
                             AList.update (ID (heap w2 db))
                               \<lparr>DB = db, ConnPool = connPool, Adapter = adapter\<rparr>
                               (connections w2)\<rparr>)))))"

text \<open>\<^verbatim>\<open>func (cm *ConnectionManager) Disconnect\<close>\<close>

definition ConnectionManager_Disconnect ::
  "'v sqldriver \<Rightarrow> string \<Rightarrow> world \<Rightarrow> error option \<times> world" where
  "ConnectionManager_Disconnect drv dbID w =
    (case map_of (connections w) dbID of
       None \<Rightarrow> (Some ErrDatabaseNotFound, w)
     | Some conn \<Rightarrow>
         (case DB_Close drv (ConnPool conn) w of
            (Some err, w1) \<Rightarrow> (Some (Errorf ''failed to close connection'' err), w1)
          | (None, w1) \<Rightarrow>
              (None,
               (set_Status (DB conn) Disconnected w1)
                 \<lparr>connections := AList.delete dbID (connections w1)\<rparr>)))"

text \<open>\<^verbatim>\<open>func (cm *ConnectionManager) ExecuteQuery\<close>\<close>

definition ConnectionManager_ExecuteQuery ::
  "'v sqldriver \<Rightarrow> string \<Rightarrow> string \<Rightarrow> world \<Rightarrow> (error + 'v QueryResult) \<times> world" where
  "ConnectionManager_ExecuteQuery drv dbID query w =
    (case map_of (connections w) dbID of
       None \<Rightarrow> (Inl ErrDatabaseNotFound, w)
     | Some conn \<Rightarrow>
         (case Adapter_ExecuteQuery (Adapter conn) drv (ConnPool conn) query w of
            (Inl err, w1) \<Rightarrow> (Inl (Errorf ''query execution failed'' err), w1)
          | (Inr result, w1) \<Rightarrow> (Inr result, w1)))"

text \<open>\<^verbatim>\<open>func (cm *ConnectionManager) IsConnected\<close>\<close>

definition ConnectionManager_IsConnected ::
  "'v sqldriver \<Rightarrow> string \<Rightarrow> world \<Rightarrow> bool \<times> world" where
  "ConnectionManager_IsConnected drv dbID w =
    (case map_of (connections w) dbID of
       None \<Rightarrow> (False, w)
     | Some conn \<Rightarrow>
         (case DB_PingContext drv (ConnPool conn) w of
            (Some err, w1) \<Rightarrow> (False, set_Status (DB conn) Disconnected w1)
          | (None, w1) \<Rightarrow> (Status (heap w1 (DB conn)) = Connected, w1)))"

text \<open>
  \<^verbatim>\<open>func (cm *ConnectionManager) ListConnections\<close>: a new slice, filled with
  \<^verbatim>\<open>conn.DB\<close> of every record; the error is always \<^verbatim>\<open>nil\<close>. It assigns to nothing
  but its own slice.
\<close>

definition ConnectionManager_ListConnections :: "world \<Rightarrow> error + addr list" where
  "ConnectionManager_ListConnections w = Inr (map (\<lambda>(dbID, conn). DB conn) (connections w))"

text \<open>
  \<^verbatim>\<open>func (cm *ConnectionManager) DisconnectAll\<close>: the loop over the records, with the
  slice \<^verbatim>\<open>errors\<close> as accumulator, then the fresh map.
\<close>

fun DisconnectAll_loop ::
  "'v sqldriver \<Rightarrow> (string \<times> Connection) list \<Rightarrow> error list \<Rightarrow> world \<Rightarrow> error list \<times> world" where
  "DisconnectAll_loop drv [] errors w = (errors, w)"
| "DisconnectAll_loop drv ((dbID, conn) # rest) errors w =
     (case DB_Close drv (ConnPool conn) w of
        (Some err, w1) \<Rightarrow>
          DisconnectAll_loop drv rest (errors @ [Errorf (''failed to close '' @ dbID) err])
            (set_Status (DB conn) Disconnected w1)
      | (None, w1) \<Rightarrow>
          DisconnectAll_loop drv rest errors (set_Status (DB conn) Disconnected w1))"

definition ConnectionManager_DisconnectAll ::
  "'v sqldriver \<Rightarrow> world \<Rightarrow> error option \<times> world" where
  "ConnectionManager_DisconnectAll drv w =
    (case DisconnectAll_loop drv (connections w) [] w of
       (errors, w1) \<Rightarrow>
         (if length errors > 0 then Some (ErrorfList ''errors during disconnect'' errors)
          else None,
          w1\<lparr>connections := []\<rparr>))"

section \<open>The orchestration service\<close>

text \<open>\<^verbatim>\<open>func (s *databaseService) RegisterDatabase\<close>\<close>

definition databaseService_RegisterDatabase ::
  "'v sqldriver \<Rightarrow> addr \<Rightarrow> world \<Rightarrow> error option \<times> world" where
  "databaseService_RegisterDatabase drv db w =
    (case Validate (heap w db) of
       Some err \<Rightarrow> (Some (Errorf ''validation failed'' err), w)
     | None \<Rightarrow>
         if \<not> IsValid (Type (heap w db)) then (Some ErrInvalidDatabaseType, w)
         else if \<not> CanConnect (heap w db) then (Some ErrMissingCredentials, w)
         else
           (case ConnectionManager_Connect drv db w of
              (Some err, w1) \<Rightarrow> (Some (Errorf ''failed to connect to database'' err), w1)
            | (None, w1) \<Rightarrow> (None, w1)))"

text \<open>\<^verbatim>\<open>func (s *databaseService) ExecuteQuery\<close>\<close>

definition databaseService_ExecuteQuery ::
  "'v sqldriver \<Rightarrow> string \<Rightarrow> string \<Rightarrow> world \<Rightarrow> (error + 'v QueryResult) \<times> world" where
  "databaseService_ExecuteQuery drv dbID query w =
    (if length dbID = 0 then (Inl (ErrorsNew ''dbID is required''), w)
     else if length query = 0 then (Inl (ErrorsNew ''query is required''), w)
     else
       case ConnectionManager_IsConnected drv dbID w of
         (False, w1) \<Rightarrow> (Inl ErrDatabaseNotConnected, w1)
       | (True, w1) \<Rightarrow>
           (case ConnectionManager_ExecuteQuery drv dbID query w1 of
              (Inl err, w2) \<Rightarrow> (Inl (Errorf ''query execution failed'' err), w2)
            | (Inr result, w2) \<Rightarrow> (Inr result, w2)))"

text \<open>
  \<^verbatim>\<open>databases[i].Password = databases[i].MaskedPassword()\<close>: \<^verbatim>\<open>databases[i]\<close> is a
  \<^verbatim>\<open>*domain.Database\<close>, the assignment goes through it to the object on the heap.
\<close>

definition mask_Password :: "addr \<Rightarrow> heap \<Rightarrow> heap" where
  "mask_Password p h = h(p := (h p)\<lparr>Password := MaskedPassword (h p)\<rparr>)"

text \<open>\<^verbatim>\<open>func (s *databaseService) ListDatabases\<close>\<close>

definition databaseService_ListDatabases :: "world \<Rightarrow> (error + addr list) \<times> world" where
  "databaseService_ListDatabases w =
    (case ConnectionManager_ListConnections w of
       Inl err \<Rightarrow> (Inl (Errorf ''failed to list databases'' err), w)
     | Inr databases \<Rightarrow> (Inr databases, w\<lparr>heap := fold mask_Password databases (heap w)\<rparr>))"

text \<open>\<^verbatim>\<open>func (s *databaseService) DisconnectDatabase\<close>\<close>

definition databaseService_DisconnectDatabase ::
  "'v sqldriver \<Rightarrow> string \<Rightarrow> world \<Rightarrow> error option \<times> world" where
  "databaseService_DisconnectDatabase drv dbID w =
    (if length dbID = 0 then (Some (ErrorsNew ''dbID is required''), w)
     else
       case ConnectionManager_IsConnected drv dbID w of
         (False, w1) \<Rightarrow> (Some ErrDatabaseNotFound, w1)
       | (True, w1) \<Rightarrow>
           (case ConnectionManager_Disconnect drv dbID w1 of
              (Some err, w2) \<Rightarrow> (Some (Errorf ''failed to disconnect'' err), w2)
            | (None, w2) \<Rightarrow> (None, w2)))"

text \<open>
  \<^verbatim>\<open>func (s *databaseService) GetDatabaseInfo\<close>: the first listed object whose \<^verbatim>\<open>ID\<close>
  field is \<^verbatim>\<open>dbID\<close> is masked in place and returned.
\<close>

definition databaseService_GetDatabaseInfo :: "string \<Rightarrow> world \<Rightarrow> (error + addr) \<times> world" where
  "databaseService_GetDatabaseInfo dbID w =
    (if length dbID = 0 then (Inl (ErrorsNew ''dbID is required''), w)
     else
       case ConnectionManager_ListConnections w of
         Inl err \<Rightarrow> (Inl (Errorf ''failed to get database info'' err), w)
       | Inr databases \<Rightarrow>
           (case find (\<lambda>db. ID (heap w db) = dbID) databases of
              Some db \<Rightarrow> (Inr db, w\<lparr>heap := mask_Password db (heap w)\<rparr>)
            | None \<Rightarrow> (Inl ErrDatabaseNotFound, w)))"

section \<open>What the registry holds, and when it is consistent\<close>

text \<open>
  The Database the registry holds for an id is the object its record points to:
  \<^verbatim>\<open>cm.connections[dbID].DB\<close>, dereferenced.
\<close>

definition stored_Database :: "world \<Rightarrow> string \<Rightarrow> Database option" where
  "stored_Database w dbID = map_option (\<lambda>conn. heap w (DB conn)) (map_of (connections w) dbID)"

text \<open>
  \<^verbatim>\<open>Connect\<close> files a record under \<^verbatim>\<open>db.ID\<close>, the service only lets a validated
  Database through, and no operation assigns to an \<^verbatim>\<open>ID\<close> field. So in every state the
  service can reach, each record sits under a non-empty key that is the \<^verbatim>\<open>ID\<close> of the
  object it points to.
\<close>

definition registry_ok :: "world \<Rightarrow> bool" where
  "registry_ok w =
     (\<forall>(dbID, conn) \<in> set (connections w). dbID \<noteq> [] \<and> ID (heap w (DB conn)) = dbID)"

section \<open>Example worlds\<close>

text \<open>
  Concrete inputs on which the operations are run below: three Database objects on the
  heap (two of them with the same id), the empty registry of a cold start, and drivers
  that answer every call, fail every \<^verbatim>\<open>Close\<close>, or fail every probe.
\<close>

definition db_pg1 :: Database where
  "db_pg1 = \<lparr>ID = ''pg1'', Name = ''n'', Type = ''postgres16.3'', Host = ''db.local'',
             Port = 5432, Schema = [], Username = ''u'', Password = ''p'',
             Status = ''disconnected''\<rparr>"

definition db_pg1_again :: Database where
  "db_pg1_again = \<lparr>ID = ''pg1'', Name = ''other'', Type = ''oracle19c'', Host = ''db2.local'',
             Port = 1521, Schema = [], Username = ''v'', Password = ''q'',
             Status = ''disconnected''\<rparr>"

definition db_maria :: Database where
  "db_maria = \<lparr>ID = ''m1'', Name = ''shop'', Type = ''mariadb10.11'', Host = ''db.local'',
               Port = 3306, Schema = [], Username = ''u'', Password = ''p'',
               Status = ''disconnected''\<rparr>"

definition cold_start :: world where
  "cold_start =
     \<lparr>heap = (\<lambda>p. if p = 0 then db_pg1 else if p = 1 then db_pg1_again else db_maria),
      connections = [], closed = [], now = 0\<rparr>"

definition driver_ok :: "int sqldriver" where
  "driver_ok =
     \<lparr>Open = (\<lambda>t driverName dsn. Inr 7),
      PingContext = (\<lambda>t conn. None),
      Close = (\<lambda>t conn. None),
      QueryContext = (\<lambda>t conn query.
         Inr \<lparr>rows_Columns = Inr [''?column?''], rows_Next = [Inr [1]], rows_Err = None\<rparr>),
      Clock = (\<lambda>t. int t)\<rparr>"

definition driver_close_fails :: "int sqldriver" where
  "driver_close_fails = driver_ok\<lparr>Close := (\<lambda>t conn. Some (DriverError ''close failed''))\<rparr>"

definition driver_ping_fails :: "int sqldriver" where
  "driver_ping_fails = driver_ok\<lparr>PingContext := (\<lambda>t conn. Some (DriverError ''timeout''))\<rparr>"

text \<open>The world after \<open>pg1\<close> has been registered at a cold start, and after it has been
  disconnected again.\<close>

definition with_pg1 :: world where
  "with_pg1 =
     \<lparr>heap = (heap cold_start)(0 := db_pg1\<lparr>Status := ''connected''\<rparr>),
      connections = [(''pg1'', \<lparr>DB = 0, ConnPool = 7, Adapter = PostgresAdapter\<rparr>)],
      closed = [], now = 3\<rparr>"

definition after_disconnect_pg1 :: world where
  "after_disconnect_pg1 =
     \<lparr>heap = (heap cold_start)(0 := db_pg1\<lparr>Status := ''disconnected''\<rparr>),
      connections = [], closed = [7], now = 5\<rparr>"

text \<open>Two live connections, and a driver whose \<^verbatim>\<open>Close\<close> fails on the first handle
  only.\<close>

definition db_ora1 :: Database where
  "db_ora1 = \<lparr>ID = ''ora1'', Name = ''ORCL'', Type = ''oracle19c'', Host = ''ora.local'',
              Port = 1521, Schema = ''XE'', Username = ''scott'', Password = ''tiger'',
              Status = ''connected''\<rparr>"

definition with_two :: world where
  "with_two =
     \<lparr>heap = (heap with_pg1)(3 := db_ora1),
      connections = [(''pg1'', \<lparr>DB = 0, ConnPool = 7, Adapter = PostgresAdapter\<rparr>),
                     (''ora1'', \<lparr>DB = 3, ConnPool = 8, Adapter = OracleAdapter\<rparr>)],
      closed = [], now = 6\<rparr>"

definition driver_first_close_fails :: "int sqldriver" where
  "driver_first_close_fails =
     driver_ok\<lparr>Close := (\<lambda>t conn. if conn = 7 then Some (DriverError ''stuck'') else None)\<rparr>"

text \<open>A driver that reports two columns of the same name, and the two query results
  met below.\<close>

definition driver_dup :: "int sqldriver" where
  "driver_dup =
     driver_ok\<lparr>QueryContext := (\<lambda>t conn query.
        Inr \<lparr>rows_Columns = Inr [''a'', ''a''], rows_Next = [Inr [1, 2]], rows_Err = None\<rparr>)\<rparr>"

definition select1_result :: "int QueryResult" where
  "select1_result =
     \<lparr>Columns = [''?column?''], Rows = [[''?column?'' \<mapsto> 1]], RowsAffected = 1,
      ExecutionTime = 1\<rparr>"

definition dup_result :: "int QueryResult" where
  "dup_result =
     \<lparr>Columns = [''a'', ''a''], Rows = [[''a'' \<mapsto> 2]], RowsAffected = 1, ExecutionTime = 1\<rparr>"

lemmas tag_defs = PostgreSQL_def Oracle11g_def Oracle19c_def MariaDB_def
  Connected_def Disconnected_def
lemmas sql_defs = sql_Open_def DB_PingContext_def DB_Close_def DB_QueryContext_def set_Status_def
lemmas example_defs = db_pg1_def db_pg1_again_def db_maria_def cold_start_def driver_ok_def
  driver_close_fails_def driver_ping_fails_def with_pg1_def after_disconnect_pg1_def
  db_ora1_def with_two_def driver_first_close_fails_def

section \<open>Validation\<close>

lemma IsValid_tags:
  "IsValid dt = (dt \<in> {''postgres16.3'', ''oracle11g'', ''oracle19c'', ''mariadb10.11''})"
  by (auto simp: IsValid_def PostgreSQL_def Oracle11g_def Oracle19c_def MariaDB_def)

text \<open>
  Claim C1. For every Database value, \<^verbatim>\<open>Validate()\<close> returns an error exactly when
  id, name, host, username or password is empty, or the port is outside 1..65535, or the
  vendor tag is not one of postgres16.3, oracle11g, oracle19c, mariadb10.11; for every
  other value it returns nil. The call changes neither the Database it is called on nor
  any other object.
\<close>

theorem Validate_rejects_exactly:
  "(Validate db \<noteq> None) =
     (ID db = [] \<or> Name db = [] \<or> Host db = [] \<or> Username db = [] \<or> Password db = []
      \<or> Port db < 1 \<or> 65535 < Port db
      \<or> Type db \<notin> {''postgres16.3'', ''oracle11g'', ''oracle19c'', ''mariadb10.11''})
   \<and> fst (Validate_call p h) = Validate (h p)
   \<and> snd (Validate_call p h) = h"
  by (auto simp: Validate_def Validate_call_def IsValid_tags)

section \<open>Running the scenario of the specification\<close>

lemma register_pg1:
  "databaseService_RegisterDatabase driver_ok 0 cold_start = (None, with_pg1)"
  by (simp add: databaseService_RegisterDatabase_def ConnectionManager_Connect_def Validate_def
      IsValid_def CanConnect_def createAdapter_def Adapter_Connect_def PostgresAdapter_Connect_def
      sql_defs tag_defs example_defs fun_eq_iff numeral_3_eq_3)

lemma disconnect_pg1:
  "databaseService_DisconnectDatabase driver_ok ''pg1'' with_pg1 = (None, after_disconnect_pg1)"
  by (simp add: databaseService_DisconnectDatabase_def ConnectionManager_IsConnected_def
      ConnectionManager_Disconnect_def sql_defs tag_defs example_defs fun_eq_iff)

section \<open>Registering an id twice\<close>

text \<open>
  Claim C5. For every Database whose id is already a key of the registry, the registry's
  \<^verbatim>\<open>Connect\<close> returns \<^verbatim>\<open>ErrAlreadyConnected\<close> and the world after the call is the
  world before it: the record stored under that id, every other record, and every
  Database object are as they were, and no driver call has been made.
\<close>

theorem Connect_present_id:
  assumes "ID (heap w db) \<in> fst ` set (connections w)"
  shows "ConnectionManager_Connect drv db w = (Some ErrAlreadyConnected, w)"
proof -
  from assms have "map_of (connections w) (ID (heap w db)) \<noteq> None"
    by (simp add: map_of_eq_None_iff)
  then show ?thesis
    by (simp add: ConnectionManager_Connect_def)
qed

text \<open>A second object with the id \<open>pg1\<close> (another host, another vendor) is refused.\<close>

theorem Connect_present_id_witness:
  "ID (heap with_pg1 1) \<in> fst ` set (connections with_pg1)
   \<and> ConnectionManager_Connect driver_ok 1 with_pg1 = (Some ErrAlreadyConnected, with_pg1)"
proof -
  have present: "ID (heap with_pg1 1) \<in> fst ` set (connections with_pg1)"
    by (simp add: example_defs)
  from Connect_present_id [OF present] present show ?thesis by simp
qed

section \<open>Disconnecting one connection\<close>

lemma Disconnect_removes:
  assumes "ConnectionManager_Disconnect drv dbID w = (None, w')"
  shows "map_of (connections w') dbID = None"
  using assms
  by (auto simp: ConnectionManager_Disconnect_def sql_defs delete_conv'
      split: option.splits prod.splits)

lemma IsConnected_frame:
  "connections (snd (ConnectionManager_IsConnected drv dbID w)) = connections w"
  "closed (snd (ConnectionManager_IsConnected drv dbID w)) = closed w"
  by (auto simp: ConnectionManager_IsConnected_def sql_defs split: option.splits prod.splits)

lemma IsConnected_absent:
  "map_of (connections w) dbID = None \<Longrightarrow> ConnectionManager_IsConnected drv dbID w = (False, w)"
  by (simp add: ConnectionManager_IsConnected_def)

lemma DisconnectDatabase_removes:
  assumes "databaseService_DisconnectDatabase drv dbID w = (None, w')"
  shows "dbID \<noteq> [] \<and> map_of (connections w') dbID = None"
  using assms
  by (auto simp: databaseService_DisconnectDatabase_def
      split: if_splits prod.splits bool.splits option.splits dest: Disconnect_removes)

text \<open>
  The two ways \<^verbatim>\<open>Disconnect\<close> ends for an id that is in the registry. \<^verbatim>\<open>Close\<close> is
  called in both; only when it returns nil is the status set and the record deleted.
\<close>

lemma Disconnect_outcomes:
  assumes "map_of (connections w) dbID = Some conn"
  shows "Close drv (now w) (ConnPool conn) = Some err \<Longrightarrow>
           ConnectionManager_Disconnect drv dbID w =
             (Some (Errorf ''failed to close connection'' err),
              w\<lparr>closed := closed w @ [ConnPool conn], now := Suc (now w)\<rparr>)"
    and "Close drv (now w) (ConnPool conn) = None \<Longrightarrow>
           ConnectionManager_Disconnect drv dbID w =
             (None,
              w\<lparr>heap := (heap w)(DB conn := (heap w (DB conn))\<lparr>Status := Disconnected\<rparr>),
                connections := AList.delete dbID (connections w),
                closed := closed w @ [ConnPool conn], now := Suc (now w)\<rparr>)"
  using assms by (simp_all add: ConnectionManager_Disconnect_def sql_defs)

text \<open>
  Claim C2, at the input where the code departs from it: \<open>pg1\<close> is registered and
  connected, and the driver's \<^verbatim>\<open>Close\<close> returns an error. \<^verbatim>\<open>Disconnect\<close> has called
  \<^verbatim>\<open>Close\<close> on the handle and reports the failure, but it returns before the two
  statements that follow: the record is still in the registry under \<open>pg1\<close> and its
  status is still Connected.
\<close>

theorem Disconnect_close_error_keeps_record:
  "ConnectionManager_Disconnect driver_close_fails ''pg1'' with_pg1 =
     (Some (Errorf ''failed to close connection'' (DriverError ''close failed'')),
      with_pg1\<lparr>closed := [7], now := 4\<rparr>)
   \<and> map_of (connections (snd (ConnectionManager_Disconnect driver_close_fails ''pg1'' with_pg1)))
        ''pg1'' = Some \<lparr>DB = 0, ConnPool = 7, Adapter = PostgresAdapter\<rparr>
   \<and> Status (heap (snd (ConnectionManager_Disconnect driver_close_fails ''pg1'' with_pg1)) 0)
        = Connected"
  by (simp add: ConnectionManager_Disconnect_def sql_defs tag_defs example_defs)

section \<open>Querying after a disconnect\<close>

text \<open>
  Claim C3, as the code has it. After the service's \<^verbatim>\<open>DisconnectDatabase\<close> has
  succeeded for an id, the service's \<^verbatim>\<open>ExecuteQuery\<close> for that id with a non-empty
  query text returns \<^verbatim>\<open>ErrDatabaseNotConnected\<close>, whatever the driver would answer,
  and changes nothing: its guard \<^verbatim>\<open>IsConnected\<close> is false for an id that is not in
  the registry. The NotFound outcome is what the registry's own \<^verbatim>\<open>ExecuteQuery\<close>
  returns for that id; the service never gets that far.
\<close>

theorem query_after_disconnect:
  assumes "databaseService_DisconnectDatabase drv dbID w = (None, w')" and "query \<noteq> []"
  shows "databaseService_ExecuteQuery drv' dbID query w' = (Inl ErrDatabaseNotConnected, w')
       \<and> ConnectionManager_ExecuteQuery drv' dbID query w' = (Inl ErrDatabaseNotFound, w')"
proof -
  from DisconnectDatabase_removes [OF assms(1)]
  have "dbID \<noteq> []" and absent: "map_of (connections w') dbID = None" by simp_all
  have "ConnectionManager_IsConnected drv' dbID w' = (False, w')"
    using absent by (rule IsConnected_absent)
  with assms(2) \<open>dbID \<noteq> []\<close> absent show ?thesis
    by (simp add: databaseService_ExecuteQuery_def ConnectionManager_ExecuteQuery_def)
qed

theorem query_after_disconnect_witness:
  "databaseService_DisconnectDatabase driver_ok ''pg1'' with_pg1 = (None, after_disconnect_pg1)
   \<and> ''SELECT 1'' \<noteq> []
   \<and> databaseService_ExecuteQuery driver_ok ''pg1'' ''SELECT 1'' after_disconnect_pg1
        = (Inl ErrDatabaseNotConnected, after_disconnect_pg1)
   \<and> ConnectionManager_ExecuteQuery driver_ok ''pg1'' ''SELECT 1'' after_disconnect_pg1
        = (Inl ErrDatabaseNotFound, after_disconnect_pg1)"
proof -
  have q: "''SELECT 1'' \<noteq> []" by simp
  from query_after_disconnect [OF disconnect_pg1 q, of driver_ok] disconnect_pg1 q
  show ?thesis by simp
qed

text \<open>
  The scenario of the specification: register \<open>pg1\<close> at a cold start, disconnect it,
  query it. The third call returns NotConnected, not NotFound.
\<close>

theorem query_after_disconnect_counterexample:
  "databaseService_RegisterDatabase driver_ok 0 cold_start = (None, with_pg1)
   \<and> databaseService_DisconnectDatabase driver_ok ''pg1'' with_pg1 = (None, after_disconnect_pg1)
   \<and> fst (databaseService_ExecuteQuery driver_ok ''pg1'' ''SELECT 1'' after_disconnect_pg1)
        = Inl ErrDatabaseNotConnected
   \<and> fst (databaseService_ExecuteQuery driver_ok ''pg1'' ''SELECT 1'' after_disconnect_pg1)
        \<noteq> Inl ErrDatabaseNotFound"
  by (simp add: register_pg1 disconnect_pg1)
     (simp add: databaseService_ExecuteQuery_def ConnectionManager_IsConnected_def
        after_disconnect_pg1_def)

section \<open>Adapter selection\<close>







section \<open>Disconnecting through the service\<close>

lemma IsConnected_True:
  "fst (ConnectionManager_IsConnected drv dbID w) =
     (\<exists>conn. map_of (connections w) dbID = Some conn
        \<and> PingContext drv (now w) (ConnPool conn) = None
        \<and> Status (heap w (DB conn)) = Connected)"
  by (auto simp: ConnectionManager_IsConnected_def sql_defs split: option.splits prod.splits)

lemma DisconnectDatabase_not_connected:
  assumes "dbID \<noteq> []" and "\<not> fst (ConnectionManager_IsConnected drv dbID w)"
  shows "databaseService_DisconnectDatabase drv dbID w =
           (Some ErrDatabaseNotFound, snd (ConnectionManager_IsConnected drv dbID w))"
  using assms
  by (cases "ConnectionManager_IsConnected drv dbID w")
     (simp add: databaseService_DisconnectDatabase_def)

lemma DisconnectDatabase_empty_id:
  "databaseService_DisconnectDatabase drv [] w = (Some (ErrorsNew ''dbID is required''), w)"
  by (simp add: databaseService_DisconnectDatabase_def)

lemma IsConnected_heap:
  "heap (snd (ConnectionManager_IsConnected drv dbID w)) =
     (case map_of (connections w) dbID of
        None \<Rightarrow> heap w
      | Some conn \<Rightarrow>
          (case PingContext drv (now w) (ConnPool conn) of
             None \<Rightarrow> heap w
           | Some err \<Rightarrow> (heap w)(DB conn := (heap w (DB conn))\<lparr>Status := Disconnected\<rparr>)))"
  by (simp add: ConnectionManager_IsConnected_def sql_defs split: option.splits)

text \<open>
  Claim C10, as the code has it. The service's \<^verbatim>\<open>DisconnectDatabase\<close> asks
  \<^verbatim>\<open>IsConnected(id)\<close> first (it gets that far for every non-empty id). Whenever that
  check is false, also when the id is in the registry and only its probe fails, the
  service returns \<^verbatim>\<open>ErrDatabaseNotFound\<close>, no record has been removed from the
  registry's map and no handle has been closed. The stored record itself is not always
  as before: when the id is in the registry and its probe fails, \<^verbatim>\<open>IsConnected\<close> has
  set the status of that record's Database to Disconnected; nothing else on the heap
  changes, and nothing at all when the id is absent or the probe succeeds. Conversely,
  if the call removed a record or closed a handle, which only the registry's
  \<^verbatim>\<open>Disconnect\<close> does, then the id was in the registry, its probe succeeded and its
  cached status was Connected.
\<close>

theorem DisconnectDatabase_behind_probe:
  "(dbID \<noteq> [] \<and> \<not> fst (ConnectionManager_IsConnected drv dbID w) \<longrightarrow>
      fst (databaseService_DisconnectDatabase drv dbID w) = Some ErrDatabaseNotFound
      \<and> connections (snd (databaseService_DisconnectDatabase drv dbID w)) = connections w
      \<and> closed (snd (databaseService_DisconnectDatabase drv dbID w)) = closed w
      \<and> heap (snd (databaseService_DisconnectDatabase drv dbID w)) =
          (case map_of (connections w) dbID of
             None \<Rightarrow> heap w
           | Some conn \<Rightarrow>
               (case PingContext drv (now w) (ConnPool conn) of
                  None \<Rightarrow> heap w
                | Some err \<Rightarrow>
                    (heap w)(DB conn := (heap w (DB conn))\<lparr>Status := Disconnected\<rparr>))))
   \<and> (connections (snd (databaseService_DisconnectDatabase drv dbID w)) \<noteq> connections w
        \<or> closed (snd (databaseService_DisconnectDatabase drv dbID w)) \<noteq> closed w \<longrightarrow>
      (\<exists>conn. map_of (connections w) dbID = Some conn
         \<and> PingContext drv (now w) (ConnPool conn) = None
         \<and> Status (heap w (DB conn)) = Connected))"
proof (intro conjI impI)
  assume a: "dbID \<noteq> [] \<and> \<not> fst (ConnectionManager_IsConnected drv dbID w)"
  then have eq: "databaseService_DisconnectDatabase drv dbID w =
           (Some ErrDatabaseNotFound, snd (ConnectionManager_IsConnected drv dbID w))"
    by (simp add: DisconnectDatabase_not_connected)
  show "fst (databaseService_DisconnectDatabase drv dbID w) = Some ErrDatabaseNotFound"
    by (simp add: eq)
  show "connections (snd (databaseService_DisconnectDatabase drv dbID w)) = connections w"
    by (simp add: eq IsConnected_frame)
  show "closed (snd (databaseService_DisconnectDatabase drv dbID w)) = closed w"
    by (simp add: eq IsConnected_frame)
  show "heap (snd (databaseService_DisconnectDatabase drv dbID w)) =
          (case map_of (connections w) dbID of
             None \<Rightarrow> heap w
           | Some conn \<Rightarrow>
               (case PingContext drv (now w) (ConnPool conn) of
                  None \<Rightarrow> heap w
                | Some err \<Rightarrow>
                    (heap w)(DB conn := (heap w (DB conn))\<lparr>Status := Disconnected\<rparr>)))"
    unfolding eq snd_conv by (rule IsConnected_heap)
next
  assume changed: "connections (snd (databaseService_DisconnectDatabase drv dbID w)) \<noteq> connections w
        \<or> closed (snd (databaseService_DisconnectDatabase drv dbID w)) \<noteq> closed w"
  have "fst (ConnectionManager_IsConnected drv dbID w)"
  proof (rule ccontr)
    assume n: "\<not> fst (ConnectionManager_IsConnected drv dbID w)"
    show False
    proof (cases "dbID = []")
      case True
      with changed show False by (simp add: DisconnectDatabase_empty_id)
    next
      case False
      with n changed show False
        by (simp add: DisconnectDatabase_not_connected IsConnected_frame)
    qed
  qed
  then show "\<exists>conn. map_of (connections w) dbID = Some conn
         \<and> PingContext drv (now w) (ConnPool conn) = None
         \<and> Status (heap w (DB conn)) = Connected"
    by (simp add: IsConnected_True)
qed

text \<open>
  \<open>pg1\<close> is registered; with a driver whose probe fails the service answers NotFound,
  the record stays and its status becomes Disconnected; with a driver that answers, the
  handle is closed.
\<close>

theorem DisconnectDatabase_behind_probe_witness:
  "''pg1'' \<noteq> []
   \<and> map_of (connections with_pg1) ''pg1'' = Some \<lparr>DB = 0, ConnPool = 7, Adapter = PostgresAdapter\<rparr>
   \<and> PingContext driver_ping_fails (now with_pg1) 7 = Some (DriverError ''timeout'')
   \<and> \<not> fst (ConnectionManager_IsConnected driver_ping_fails ''pg1'' with_pg1)
   \<and> fst (databaseService_DisconnectDatabase driver_ping_fails ''pg1'' with_pg1)
        = Some ErrDatabaseNotFound
   \<and> connections (snd (databaseService_DisconnectDatabase driver_ping_fails ''pg1'' with_pg1))
        = connections with_pg1
   \<and> closed (snd (databaseService_DisconnectDatabase driver_ping_fails ''pg1'' with_pg1))
        = closed with_pg1
   \<and> heap (snd (databaseService_DisconnectDatabase driver_ping_fails ''pg1'' with_pg1))
        = (heap with_pg1)(0 := (heap with_pg1 0)\<lparr>Status := Disconnected\<rparr>)
   \<and> closed (snd (databaseService_DisconnectDatabase driver_ok ''pg1'' with_pg1))
        \<noteq> closed with_pg1
   \<and> (\<exists>conn. map_of (connections with_pg1) ''pg1'' = Some conn
         \<and> PingContext driver_ok (now with_pg1) (ConnPool conn) = None
         \<and> Status (heap with_pg1 (DB conn)) = Connected)"
proof -
  have present: "map_of (connections with_pg1) ''pg1''
      = Some \<lparr>DB = 0, ConnPool = 7, Adapter = PostgresAdapter\<rparr>"
    by (simp add: example_defs)
  have ping: "PingContext driver_ping_fails (now with_pg1) 7 = Some (DriverError ''timeout'')"
    by (simp add: example_defs)
  have probe: "\<not> fst (ConnectionManager_IsConnected driver_ping_fails ''pg1'' with_pg1)"
    by (simp add: ConnectionManager_IsConnected_def sql_defs example_defs)
  have changed: "closed (snd (databaseService_DisconnectDatabase driver_ok ''pg1'' with_pg1))
        \<noteq> closed with_pg1"
    by (simp add: disconnect_pg1) (simp add: example_defs)
  from DisconnectDatabase_behind_probe [of "''pg1''" driver_ping_fails with_pg1]
       DisconnectDatabase_behind_probe [of "''pg1''" driver_ok with_pg1]
       present ping probe changed
  show ?thesis by simp
qed

text \<open>
  \<open>pg1\<close> is registered and connected, the probe fails: the call is rejected with
  NotFound, and the Database the registry stores under \<open>pg1\<close> is no longer the one it
  stored before, its status having gone from connected to disconnected.
\<close>

theorem DisconnectDatabase_status_flip_counterexample:
  "map_of (connections with_pg1) ''pg1'' = Some \<lparr>DB = 0, ConnPool = 7, Adapter = PostgresAdapter\<rparr>
   \<and> fst (ConnectionManager_IsConnected driver_ping_fails ''pg1'' with_pg1) = False
   \<and> fst (databaseService_DisconnectDatabase driver_ping_fails ''pg1'' with_pg1)
        = Some ErrDatabaseNotFound
   \<and> map_option Status (stored_Database with_pg1 ''pg1'') = Some ''connected''
   \<and> map_option Status
        (stored_Database (snd (databaseService_DisconnectDatabase driver_ping_fails ''pg1'' with_pg1))
           ''pg1'') = Some ''disconnected''
   \<and> stored_Database (snd (databaseService_DisconnectDatabase driver_ping_fails ''pg1'' with_pg1))
        ''pg1'' \<noteq> stored_Database with_pg1 ''pg1''"
  by (simp add: databaseService_DisconnectDatabase_def ConnectionManager_IsConnected_def
      stored_Database_def sql_defs tag_defs example_defs)

section \<open>Disconnecting everything\<close>

lemma loop_connections:
  "connections (snd (DisconnectAll_loop drv cs errs w)) = connections w"
  by (induction cs arbitrary: errs w)
     (auto simp: sql_defs split: option.splits prod.splits)

lemma loop_closed:
  "closed (snd (DisconnectAll_loop drv cs errs w))
     = closed w @ map (\<lambda>(dbID, conn). ConnPool conn) cs"
  by (induction cs arbitrary: errs w)
     (auto simp: sql_defs split: option.splits prod.splits)

lemma loop_heap:
  "heap (snd (DisconnectAll_loop drv cs errs w)) =
     (\<lambda>p. if p \<in> (\<lambda>(dbID, conn). DB conn) ` set cs
           then (heap w p)\<lparr>Status := Disconnected\<rparr> else heap w p)"
  by (induction cs arbitrary: errs w)
     (auto simp: sql_defs fun_eq_iff split: option.splits prod.splits)

lemma loop_errors:
  "fst (DisconnectAll_loop drv cs errs w) =
     errs @ List.map_filter
       (\<lambda>(t, dbID, conn). map_option (Errorf (''failed to close '' @ dbID))
                              (Close drv t (ConnPool conn)))
       (enumerate (now w) cs)"
  by (induction cs arbitrary: errs w)
     (auto simp: sql_defs map_filter_simps split: option.splits prod.splits)

lemma map_filter_Nil_iff: "(List.map_filter f xs = []) = (\<forall>x\<in>set xs. f x = None)"
  by (induction xs) (auto simp: map_filter_simps split: option.splits)

lemma ex_enumerate:
  "(\<exists>x\<in>set (enumerate n xs). P (fst x) (snd x)) = (\<exists>i<length xs. P (n + i) (xs ! i))"
proof
  assume "\<exists>x\<in>set (enumerate n xs). P (fst x) (snd x)"
  then obtain t y where m: "(t, y) \<in> set (enumerate n xs)" and p: "P t y" by auto
  from m have "n \<le> t" "t - n < length xs" "xs ! (t - n) = y"
    by (auto simp: in_set_enumerate_eq)
  with p show "\<exists>i<length xs. P (n + i) (xs ! i)"
    by (intro exI [of _ "t - n"]) simp
next
  assume "\<exists>i<length xs. P (n + i) (xs ! i)"
  then obtain i where "i < length xs" "P (n + i) (xs ! i)" by auto
  then have "(n + i, xs ! i) \<in> set (enumerate n xs)"
    by (simp add: in_set_enumerate_eq)
  with \<open>P (n + i) (xs ! i)\<close> show "\<exists>x\<in>set (enumerate n xs). P (fst x) (snd x)"
    by force
qed

text \<open>
  Claim C4. \<^verbatim>\<open>DisconnectAll\<close> calls \<^verbatim>\<open>Close\<close> on the handle of every record, one
  after the other in the order of the iteration, whether or not earlier calls failed;
  afterwards every record's Database has status Disconnected and the registry is empty,
  whatever the calls returned. The errors collected are exactly those of the failed
  calls, each wrapped with the record's id, and the result is an aggregate error exactly
  when at least one call failed (the \<open>i\<close>-th record is closed by driver call number
  \<open>now w + i\<close>), and nil otherwise.
\<close>

theorem DisconnectAll_best_effort:
  "connections (snd (ConnectionManager_DisconnectAll drv w)) = []
   \<and> closed (snd (ConnectionManager_DisconnectAll drv w))
       = closed w @ map (\<lambda>(dbID, conn). ConnPool conn) (connections w)
   \<and> (\<forall>(dbID, conn) \<in> set (connections w).
         Status (heap (snd (ConnectionManager_DisconnectAll drv w)) (DB conn)) = Disconnected)
   \<and> fst (ConnectionManager_DisconnectAll drv w) =
       (let errors = List.map_filter
              (\<lambda>(t, dbID, conn). map_option (Errorf (''failed to close '' @ dbID))
                                     (Close drv t (ConnPool conn)))
              (enumerate (now w) (connections w))
        in if errors = [] then None else Some (ErrorfList ''errors during disconnect'' errors))
   \<and> (fst (ConnectionManager_DisconnectAll drv w) \<noteq> None)
       = (\<exists>i<length (connections w).
            Close drv (now w + i) (ConnPool (snd (connections w ! i))) \<noteq> None)"
proof -
  obtain errors w1 where loop: "DisconnectAll_loop drv (connections w) [] w = (errors, w1)"
    by (cases "DisconnectAll_loop drv (connections w) [] w")
  have res: "ConnectionManager_DisconnectAll drv w =
      (if errors = [] then None else Some (ErrorfList ''errors during disconnect'' errors),
       w1\<lparr>connections := []\<rparr>)"
    by (simp add: ConnectionManager_DisconnectAll_def loop)
  have errors: "errors = List.map_filter
              (\<lambda>(t, dbID, conn). map_option (Errorf (''failed to close '' @ dbID))
                                     (Close drv t (ConnPool conn)))
              (enumerate (now w) (connections w))"
    using loop_errors [of drv "connections w" "[]" w] by (simp add: loop)
  have c1: "connections (snd (ConnectionManager_DisconnectAll drv w)) = []"
    by (simp add: res)
  have c2: "closed (snd (ConnectionManager_DisconnectAll drv w))
       = closed w @ map (\<lambda>(dbID, conn). ConnPool conn) (connections w)"
    using loop_closed [of drv "connections w" "[]" w] by (simp add: res loop)
  have c3: "\<forall>(dbID, conn) \<in> set (connections w).
         Status (heap (snd (ConnectionManager_DisconnectAll drv w)) (DB conn)) = Disconnected"
    using loop_heap [of drv "connections w" "[]" w] by (force simp: res loop)
  have c4: "fst (ConnectionManager_DisconnectAll drv w) =
       (let errors = List.map_filter
              (\<lambda>(t, dbID, conn). map_option (Errorf (''failed to close '' @ dbID))
                                     (Close drv t (ConnPool conn)))
              (enumerate (now w) (connections w))
        in if errors = [] then None else Some (ErrorfList ''errors during disconnect'' errors))"
    unfolding res fst_conv errors [symmetric] Let_def ..
  have "(fst (ConnectionManager_DisconnectAll drv w) \<noteq> None) = (errors \<noteq> [])"
    by (simp add: res)
  also have "\<dots> = (\<exists>x\<in>set (enumerate (now w) (connections w)).
            Close drv (fst x) (ConnPool (snd (snd x))) \<noteq> None)"
    unfolding errors map_filter_Nil_iff by (force split: prod.splits)
  also have "\<dots> = (\<exists>i<length (connections w).
            Close drv (now w + i) (ConnPool (snd (connections w ! i))) \<noteq> None)"
    by (rule ex_enumerate [of "now w" "connections w"
          "\<lambda>t x. Close drv t (ConnPool (snd x)) \<noteq> None"])
  finally have c5: "(fst (ConnectionManager_DisconnectAll drv w) \<noteq> None)
       = (\<exists>i<length (connections w).
            Close drv (now w + i) (ConnPool (snd (connections w ! i))) \<noteq> None)" .
  from c1 c2 c3 c4 c5 show ?thesis by blast
qed

theorem DisconnectAll_best_effort_witness:
  "connections (snd (ConnectionManager_DisconnectAll driver_first_close_fails with_two)) = []
   \<and> closed (snd (ConnectionManager_DisconnectAll driver_first_close_fails with_two)) = [7, 8]
   \<and> Status (heap (snd (ConnectionManager_DisconnectAll driver_first_close_fails with_two)) 0)
        = Disconnected
   \<and> Status (heap (snd (ConnectionManager_DisconnectAll driver_first_close_fails with_two)) 3)
        = Disconnected
   \<and> fst (ConnectionManager_DisconnectAll driver_first_close_fails with_two)
        = Some (ErrorfList ''errors during disconnect''
                  [Errorf ''failed to close pg1'' (DriverError ''stuck'')])
   \<and> Close driver_first_close_fails (now with_two + 0) 7 \<noteq> None"
  using DisconnectAll_best_effort [of driver_first_close_fails with_two]
  by (simp add: example_defs enumerate_simps map_filter_simps)

section \<open>Query results\<close>

lemma dom_fill_row: "dom (fill_row row i cols vs) = dom row \<union> set cols"
  by (induction cols arbitrary: row i) auto

lemma fill_row_other: "x \<notin> set cols \<Longrightarrow> fill_row row n cols vs x = row x"
  by (induction cols arbitrary: row n) auto

lemma fill_row_last:
  assumes "i < length cols"
    and "\<forall>j. i < j \<and> j < length cols \<longrightarrow> cols ! j \<noteq> cols ! i"
  shows "fill_row row n cols vs (cols ! i) = Some (vs ! (n + i))"
  using assms
proof (induction cols arbitrary: row n i)
  case Nil
  then show ?case by simp
next
  case (Cons col cols)
  show ?case
  proof (cases i)
    case 0
    have "col \<notin> set cols"
    proof
      assume "col \<in> set cols"
      then obtain m where "m < length cols" "cols ! m = col"
        by (auto simp: in_set_conv_nth)
      with Cons.prems(2) 0 show False
        by (auto dest: spec [of _ "Suc m"])
    qed
    with 0 show ?thesis by (simp add: fill_row_other)
  next
    case (Suc i')
    with Cons.prems have "i' < length cols"
      and "\<forall>j. i' < j \<and> j < length cols \<longrightarrow> cols ! j \<noteq> cols ! i'"
      by (auto dest: spec [of _ "Suc _"])
    then have "fill_row (row(col \<mapsto> vs ! n)) (Suc n) cols vs (cols ! i') = Some (vs ! (Suc n + i'))"
      by (rule Cons.IH)
    with Suc show ?thesis by simp
  qed
qed

lemma scan_rows_rows:
  assumes "scan_rows columns rs results = Inr out"
  shows "\<exists>out'. out = results @ out'
           \<and> list_all2 (\<lambda>r row. \<exists>vs. r = Inr vs \<and> length vs = length columns
                                   \<and> row = fill_row Map.empty 0 columns vs) rs out'"
  using assms
proof (induction rs arbitrary: results)
  case Nil
  then show ?case by simp
next
  case (Cons r rest)
  from Cons.prems obtain vs where s: "Scan (length columns) r = Inr vs"
    and rest: "scan_rows columns rest (results @ [fill_row Map.empty 0 columns vs]) = Inr out"
    by (auto split: sum.splits)
  from s have r: "r = Inr vs" "length vs = length columns"
    by (auto simp: Scan_def split: sum.splits if_splits)
  from Cons.IH [OF rest] obtain out' where
    "out = (results @ [fill_row Map.empty 0 columns vs]) @ out'"
    and "list_all2 (\<lambda>r row. \<exists>vs. r = Inr vs \<and> length vs = length columns
                                   \<and> row = fill_row Map.empty 0 columns vs) rest out'"
    by blast
  with r show ?case
    by (intro exI [of _ "fill_row Map.empty 0 columns vs # out'"]) simp
qed

lemma body_Inr:
  fixes drv :: "'v sqldriver"
  assumes "Adapter_ExecuteQuery_body drv conn query w = (Inr qr, w')"
  shows "\<exists>rows :: 'v sqlrows. QueryContext drv (now w) conn query = Inr rows
           \<and> rows_Columns rows = Inr (Columns qr)
           \<and> scan_rows (Columns qr) (rows_Next rows) [] = Inr (Rows qr)"
proof (cases "QueryContext drv (now w) conn query")
  case (Inl err)
  with assms show ?thesis
    by (simp add: Adapter_ExecuteQuery_body_def DB_QueryContext_def)
next
  case (Inr rows)
  show ?thesis
  proof (cases "rows_Columns rows")
    case (Inl err)
    with Inr assms show ?thesis
      by (simp add: Adapter_ExecuteQuery_body_def DB_QueryContext_def)
  next
    case cols: (Inr columns)
    show ?thesis
    proof (cases "scan_rows columns (rows_Next rows) []")
      case (Inl err)
      with Inr cols assms show ?thesis
        by (simp add: Adapter_ExecuteQuery_body_def DB_QueryContext_def)
    next
      case res: (Inr results)
      with Inr cols assms have "Columns qr = columns \<and> Rows qr = results"
        by (cases "rows_Err rows")
           (auto simp: Adapter_ExecuteQuery_body_def DB_QueryContext_def)
      with Inr cols res show ?thesis by auto
    qed
  qed
qed

text \<open>
  Claim C6, as the code has it. Take any QueryResult produced by the PostgreSQL or the
  Oracle adapter's \<^verbatim>\<open>ExecuteQuery\<close> and any row mapping in it, the \<open>k\<close>-th, which is
  built from the \<open>k\<close>-th row the driver delivered. The key set of that row is the set of
  the column names the driver reported. So the row has at most as many keys as there are
  columns; it has exactly as many when the reported names are pairwise distinct, and
  fewer when a name is reported more than once. Under each name the row holds the value
  of the last column reported with that name: where a name is repeated, the later
  column's value has overwritten the earlier one.
\<close>

theorem QueryResult_row_keys:
  fixes drv :: "'v sqldriver"
  assumes "PostgresAdapter_ExecuteQuery drv conn query w = (Inr qr, w')
           \<or> OracleAdapter_ExecuteQuery drv conn query w = (Inr qr, w')"
    and "k < length (Rows qr)"
  shows "dom (Rows qr ! k) = set (Columns qr)
       \<and> card (dom (Rows qr ! k)) \<le> length (Columns qr)
       \<and> (card (dom (Rows qr ! k)) = length (Columns qr)) = distinct (Columns qr)
       \<and> (card (dom (Rows qr ! k)) < length (Columns qr)) = (\<not> distinct (Columns qr))
       \<and> (\<exists>(rows :: 'v sqlrows) vs.
             QueryContext drv (now w) conn query = Inr rows
             \<and> rows_Columns rows = Inr (Columns qr)
             \<and> length (rows_Next rows) = length (Rows qr)
             \<and> rows_Next rows ! k = Inr vs
             \<and> length vs = length (Columns qr)
             \<and> (\<forall>i<length (Columns qr).
                   (\<forall>j. i < j \<and> j < length (Columns qr) \<longrightarrow> Columns qr ! j \<noteq> Columns qr ! i)
                   \<longrightarrow> (Rows qr ! k) (Columns qr ! i) = Some (vs ! i)))"
proof -
  from assms(1) have "Adapter_ExecuteQuery_body drv conn query w = (Inr qr, w')"
    by (auto simp: PostgresAdapter_ExecuteQuery_def OracleAdapter_ExecuteQuery_def)
  from body_Inr [OF this] obtain rows :: "'v sqlrows"
    where q: "QueryContext drv (now w) conn query = Inr rows"
      and c: "rows_Columns rows = Inr (Columns qr)"
      and s: "scan_rows (Columns qr) (rows_Next rows) [] = Inr (Rows qr)"
    by blast
  from scan_rows_rows [OF s]
  have all: "list_all2 (\<lambda>r row. \<exists>vs. r = Inr vs \<and> length vs = length (Columns qr)
                \<and> row = fill_row Map.empty 0 (Columns qr) vs) (rows_Next rows) (Rows qr)"
    by simp
  then have len: "length (rows_Next rows) = length (Rows qr)"
    by (rule list_all2_lengthD)
  from all assms(2) obtain vs where r: "rows_Next rows ! k = Inr vs"
    and lv: "length vs = length (Columns qr)"
    and row: "Rows qr ! k = fill_row Map.empty 0 (Columns qr) vs"
    by (auto simp: list_all2_conv_all_nth)
  have d: "dom (Rows qr ! k) = set (Columns qr)"
    by (simp add: row dom_fill_row)
  have eq: "(card (set (Columns qr)) = length (Columns qr)) = distinct (Columns qr)"
    using distinct_card [of "Columns qr"] card_distinct [of "Columns qr"] by blast
  have le: "card (set (Columns qr)) \<le> length (Columns qr)"
    by (rule card_length)
  have last: "\<forall>i<length (Columns qr).
       (\<forall>j. i < j \<and> j < length (Columns qr) \<longrightarrow> Columns qr ! j \<noteq> Columns qr ! i)
       \<longrightarrow> (Rows qr ! k) (Columns qr ! i) = Some (vs ! i)"
    using fill_row_last [of _ "Columns qr" Map.empty 0 vs] by (simp add: row)
  from q c len r lv last
  have ex: "\<exists>(rows :: 'v sqlrows) vs.
             QueryContext drv (now w) conn query = Inr rows
             \<and> rows_Columns rows = Inr (Columns qr)
             \<and> length (rows_Next rows) = length (Rows qr)
             \<and> rows_Next rows ! k = Inr vs
             \<and> length vs = length (Columns qr)
             \<and> (\<forall>i<length (Columns qr).
                   (\<forall>j. i < j \<and> j < length (Columns qr) \<longrightarrow> Columns qr ! j \<noteq> Columns qr ! i)
                   \<longrightarrow> (Rows qr ! k) (Columns qr ! i) = Some (vs ! i))"
    by blast
  from eq le have lt: "(card (set (Columns qr)) < length (Columns qr)) = (\<not> distinct (Columns qr))"
    by linarith
  from d eq le lt ex show ?thesis
    by (simp only: d)
qed


lemma select1:
  "PostgresAdapter_ExecuteQuery driver_ok 7 ''SELECT 1'' with_pg1
     = (Inr select1_result, with_pg1\<lparr>now := 4\<rparr>)"
  by (simp add: PostgresAdapter_ExecuteQuery_def Adapter_ExecuteQuery_body_def Scan_def
      sql_defs example_defs select1_result_def)

lemma select_dup:
  "PostgresAdapter_ExecuteQuery driver_dup 7 ''SELECT 1 AS a, 2 AS a'' with_pg1
     = (Inr dup_result, with_pg1\<lparr>now := 4\<rparr>)"
  by (simp add: PostgresAdapter_ExecuteQuery_def Adapter_ExecuteQuery_body_def Scan_def
      sql_defs example_defs driver_dup_def dup_result_def)

text \<open>
  One column: one key. Two columns named \<open>a\<close> with the values 1 and 2: one key, and
  the value under it is the second column's.
\<close>

theorem QueryResult_row_keys_witness:
  "PostgresAdapter_ExecuteQuery driver_ok 7 ''SELECT 1'' with_pg1
     = (Inr select1_result, with_pg1\<lparr>now := 4\<rparr>)
   \<and> 0 < length (Rows select1_result)
   \<and> distinct (Columns select1_result)
   \<and> dom (Rows select1_result ! 0) = set (Columns select1_result)
   \<and> card (dom (Rows select1_result ! 0)) = length (Columns select1_result)
   \<and> PostgresAdapter_ExecuteQuery driver_dup 7 ''SELECT 1 AS a, 2 AS a'' with_pg1
     = (Inr dup_result, with_pg1\<lparr>now := 4\<rparr>)
   \<and> 0 < length (Rows dup_result)
   \<and> QueryContext driver_dup (now with_pg1) 7 ''SELECT 1 AS a, 2 AS a''
       = Inr \<lparr>rows_Columns = Inr [''a'', ''a''], rows_Next = [Inr [1, 2]], rows_Err = None\<rparr>
   \<and> \<not> distinct (Columns dup_result)
   \<and> dom (Rows dup_result ! 0) = set (Columns dup_result)
   \<and> card (dom (Rows dup_result ! 0)) < length (Columns dup_result)
   \<and> (Rows dup_result ! 0) (Columns dup_result ! 1) = Some 2"
proof -
  have k1: "0 < length (Rows select1_result)" by (simp add: select1_result_def)
  have d1: "distinct (Columns select1_result)" by (simp add: select1_result_def)
  note t1 = QueryResult_row_keys [OF disjI1 [OF select1] k1]
  from t1 have dom1: "dom (Rows select1_result ! 0) = set (Columns select1_result)"
    by (rule conjunct1)
  from t1 have "(card (dom (Rows select1_result ! 0)) = length (Columns select1_result))
      = distinct (Columns select1_result)"
    by (rule conjunct2 [THEN conjunct2, THEN conjunct1])
  then have card1: "card (dom (Rows select1_result ! 0)) = length (Columns select1_result)"
    using d1 by (rule iffD2)
  have k2: "0 < length (Rows dup_result)" by (simp add: dup_result_def)
  have d2: "\<not> distinct (Columns dup_result)" by (simp add: dup_result_def)
  have q: "QueryContext driver_dup (now with_pg1) 7 ''SELECT 1 AS a, 2 AS a''
       = Inr \<lparr>rows_Columns = Inr [''a'', ''a''], rows_Next = [Inr [1, 2]], rows_Err = None\<rparr>"
    by (simp add: driver_dup_def driver_ok_def)
  note t2 = QueryResult_row_keys [OF disjI1 [OF select_dup] k2]
  from t2 have dom2: "dom (Rows dup_result ! 0) = set (Columns dup_result)"
    by (rule conjunct1)
  from t2 have "(card (dom (Rows dup_result ! 0)) < length (Columns dup_result))
      = (\<not> distinct (Columns dup_result))"
    by (rule conjunct2 [THEN conjunct2, THEN conjunct2, THEN conjunct1])
  then have card2: "card (dom (Rows dup_result ! 0)) < length (Columns dup_result)"
    using d2 by (rule iffD2)
  from t2 obtain rows :: "int sqlrows" and vs
    where "QueryContext driver_dup (now with_pg1) 7 ''SELECT 1 AS a, 2 AS a'' = Inr rows"
      and "rows_Next rows ! 0 = Inr vs"
      and last: "\<forall>i<length (Columns dup_result).
                   (\<forall>j. i < j \<and> j < length (Columns dup_result)
                        \<longrightarrow> Columns dup_result ! j \<noteq> Columns dup_result ! i)
                   \<longrightarrow> (Rows dup_result ! 0) (Columns dup_result ! i) = Some (vs ! i)"
    by blast
  with q have vs: "vs = [1, 2]" by simp
  have len: "length (Columns dup_result) = 2" by (simp add: dup_result_def)
  from last have "(Rows dup_result ! 0) (Columns dup_result ! 1) = Some (vs ! 1)"
    unfolding len by (auto dest!: spec [of _ 1])
  then have v: "(Rows dup_result ! 0) (Columns dup_result ! 1) = Some 2"
    by (simp add: vs)
  show ?thesis
    by (intro conjI)
       (rule select1, rule k1, rule d1, rule dom1, rule card1, rule select_dup, rule k2, rule q,
        rule d2, rule dom2, rule card2, rule v)
qed

text \<open>
  With two columns named \<open>a\<close> the second value overwrites the first under the one key:
  two columns, one key, for either adapter.
\<close>

theorem duplicate_column_names_counterexample:
  "PostgresAdapter_ExecuteQuery driver_dup 7 ''SELECT 1 AS a, 2 AS a'' with_pg1
     = (Inr dup_result, with_pg1\<lparr>now := 4\<rparr>)
   \<and> OracleAdapter_ExecuteQuery driver_dup 7 ''SELECT 1 AS a, 2 AS a FROM dual'' with_pg1
     = (Inr dup_result, with_pg1\<lparr>now := 4\<rparr>)
   \<and> Columns dup_result = [''a'', ''a'']
   \<and> Rows dup_result = [[''a'' \<mapsto> 2]]
   \<and> length (Columns dup_result) = 2
   \<and> card (dom [''a'' \<mapsto> (2::int)]) = 1"
  by (simp add: PostgresAdapter_ExecuteQuery_def OracleAdapter_ExecuteQuery_def
      Adapter_ExecuteQuery_body_def Scan_def sql_defs example_defs driver_dup_def dup_result_def)

section \<open>Listing connections\<close>

lemma ListConnections_pointers:
  "ConnectionManager_ListConnections w = Inr (map (\<lambda>(dbID, conn). DB conn) (connections w))"
  by (simp add: ConnectionManager_ListConnections_def)

lemma map_of_in_pointers:
  "map_of cs dbID = Some conn \<Longrightarrow> DB conn \<in> set (map (\<lambda>(dbID, conn). DB conn) cs)"
  by (force dest: map_of_SomeD)

text \<open>
  Claim C7, as the code has it. \<^verbatim>\<open>ListConnections\<close> returns a new slice that holds, for
  every record in iteration order, the record's own \<^verbatim>\<open>*Database\<close> pointer: nothing is
  copied and nothing is masked. For every id in the registry the pointer of its record is
  among those returned, the object behind it is the stored Database itself (so it carries
  the stored, unmasked password), and an assignment through the returned pointer is an
  assignment to what the registry stores.
\<close>

theorem ListConnections_aliases_registry:
  assumes "map_of (connections w) dbID = Some conn"
  shows "ConnectionManager_ListConnections w
           = Inr (map (\<lambda>(dbID, conn). DB conn) (connections w))
       \<and> DB conn \<in> set (map (\<lambda>(dbID, conn). DB conn) (connections w))
       \<and> stored_Database w dbID = Some (heap w (DB conn))
       \<and> stored_Database (w\<lparr>heap := (heap w)(DB conn := d)\<rparr>) dbID = Some d"
  using assms map_of_in_pointers [OF assms]
  by (simp add: ListConnections_pointers stored_Database_def)

theorem ListConnections_aliases_registry_witness:
  "map_of (connections with_two) ''ora1'' = Some \<lparr>DB = 3, ConnPool = 8, Adapter = OracleAdapter\<rparr>
   \<and> ConnectionManager_ListConnections with_two = Inr [0, 3]
   \<and> map_option Password (stored_Database with_two ''ora1'') = Some ''tiger''
   \<and> Password (heap with_two 3) = ''tiger''
   \<and> stored_Database (with_two\<lparr>heap := (heap with_two)(3 := db_pg1)\<rparr>) ''ora1'' = Some db_pg1"
proof -
  have present: "map_of (connections with_two) ''ora1''
      = Some \<lparr>DB = 3, ConnPool = 8, Adapter = OracleAdapter\<rparr>"
    by (simp add: with_two_def)
  have pw: "Password (heap with_two 3) = ''tiger''"
    by (simp add: with_two_def db_ora1_def)
  have l: "map (\<lambda>(dbID, conn). DB conn) (connections with_two) = [0, 3]"
    by (simp add: with_two_def)
  from ListConnections_aliases_registry [OF present, of db_pg1] present pw l
  show ?thesis by simp
qed

text \<open>
  \<open>pg1\<close> is registered with password \<open>p\<close>; \<^verbatim>\<open>ListConnections\<close> returns the one
  pointer \<open>0\<close>; after an assignment to \<^verbatim>\<open>Password\<close> through it the registry stores
  another Database than before.
\<close>

theorem ListConnections_snapshot_counterexample:
  "ConnectionManager_ListConnections with_pg1 = Inr [0]
   \<and> map_option Password (stored_Database with_pg1 ''pg1'') = Some ''p''
   \<and> map_option Password
        (stored_Database
           (with_pg1\<lparr>heap := (heap with_pg1)(0 := (heap with_pg1 0)\<lparr>Password := ''changed''\<rparr>)\<rparr>)
           ''pg1'') = Some ''changed''
   \<and> stored_Database
        (with_pg1\<lparr>heap := (heap with_pg1)(0 := (heap with_pg1 0)\<lparr>Password := ''changed''\<rparr>)\<rparr>)
        ''pg1'' \<noteq> stored_Database with_pg1 ''pg1''"
  by (simp add: ConnectionManager_ListConnections_def stored_Database_def with_pg1_def
      cold_start_def db_pg1_def)

section \<open>Masking the password\<close>

lemma MaskedPassword_idem:
  "MaskedPassword (d\<lparr>Password := MaskedPassword d\<rparr>) = MaskedPassword d"
  by (simp add: MaskedPassword_def)

lemma fold_mask_Password:
  "fold mask_Password ps h =
     (\<lambda>p. if p \<in> set ps then (h p)\<lparr>Password := MaskedPassword (h p)\<rparr> else h p)"
  by (induction ps arbitrary: h)
     (auto simp: mask_Password_def MaskedPassword_idem fun_eq_iff)

lemma find_stored_pointer:
  assumes "\<forall>(k, c) \<in> set cs. ID (h (DB c)) = k" and "map_of cs dbID = Some conn"
  shows "find (\<lambda>p. ID (h p) = dbID) (map (\<lambda>(k, c). DB c) cs) = Some (DB conn)"
  using assms by (induction cs) (auto split: if_splits)

lemma registry_ok_key:
  "registry_ok w \<Longrightarrow> map_of (connections w) dbID = Some conn \<Longrightarrow> dbID \<noteq> []"
  by (auto simp: registry_ok_def dest!: map_of_SomeD)

lemma ListDatabases_eq:
  "databaseService_ListDatabases w =
     (Inr (map (\<lambda>(dbID, conn). DB conn) (connections w)),
      w\<lparr>heap := (\<lambda>p. if p \<in> (\<lambda>(dbID, conn). DB conn) ` set (connections w)
                       then (heap w p)\<lparr>Password := MaskedPassword (heap w p)\<rparr>
                       else heap w p)\<rparr>)"
  by (simp add: databaseService_ListDatabases_def ConnectionManager_ListConnections_def
      fold_mask_Password)

lemma GetDatabaseInfo_eq:
  assumes "registry_ok w" and "map_of (connections w) dbID = Some conn"
  shows "databaseService_GetDatabaseInfo dbID w =
     (Inr (DB conn), w\<lparr>heap := mask_Password (DB conn) (heap w)\<rparr>)"
proof -
  from assms have "dbID \<noteq> []" by (rule registry_ok_key)
  moreover from assms(1) have "\<forall>(k, c) \<in> set (connections w). ID (heap w (DB c)) = k"
    by (auto simp: registry_ok_def)
  then have "find (\<lambda>p. ID (heap w p) = dbID) (map (\<lambda>(k, c). DB c) (connections w))
      = Some (DB conn)"
    using assms(2) by (rule find_stored_pointer)
  ultimately show ?thesis
    by (simp add: databaseService_GetDatabaseInfo_def ConnectionManager_ListConnections_def)
qed

text \<open>
  Claim C9. The slice \<^verbatim>\<open>ListDatabases\<close> returns holds the registry's own pointers, and
  the mask is written through them: for every record of the registry whose stored
  password is not empty, after one call of \<^verbatim>\<open>ListDatabases\<close> the password the registry
  stores for it is \<open>****\<close>, whatever the secret was. In a consistent registry the same
  holds for the record of \<open>dbID\<close> after \<^verbatim>\<open>GetDatabaseInfo(dbID)\<close>, which returns that
  record's pointer. Neither call adds or removes a record.
\<close>

theorem masking_overwrites_stored_password:
  assumes "map_of (connections w) dbID = Some conn" and "Password (heap w (DB conn)) \<noteq> []"
  shows "fst (databaseService_ListDatabases w)
           = Inr (map (\<lambda>(dbID, conn). DB conn) (connections w))
       \<and> connections (snd (databaseService_ListDatabases w)) = connections w
       \<and> map_option Password (stored_Database (snd (databaseService_ListDatabases w)) dbID)
           = Some ''****''
       \<and> (registry_ok w \<longrightarrow>
            fst (databaseService_GetDatabaseInfo dbID w) = Inr (DB conn)
            \<and> connections (snd (databaseService_GetDatabaseInfo dbID w)) = connections w
            \<and> map_option Password (stored_Database (snd (databaseService_GetDatabaseInfo dbID w)) dbID)
                = Some ''****'')"
proof -
  from assms(1) have "DB conn \<in> (\<lambda>(dbID, conn). DB conn) ` set (connections w)"
    by (force dest: map_of_SomeD)
  with assms have list: "fst (databaseService_ListDatabases w)
           = Inr (map (\<lambda>(dbID, conn). DB conn) (connections w))
       \<and> connections (snd (databaseService_ListDatabases w)) = connections w
       \<and> map_option Password (stored_Database (snd (databaseService_ListDatabases w)) dbID)
           = Some ''****''"
    by (simp add: ListDatabases_eq stored_Database_def MaskedPassword_def)
  have "fst (databaseService_GetDatabaseInfo dbID w) = Inr (DB conn)
            \<and> connections (snd (databaseService_GetDatabaseInfo dbID w)) = connections w
            \<and> map_option Password (stored_Database (snd (databaseService_GetDatabaseInfo dbID w)) dbID)
                = Some ''****''" if "registry_ok w"
    using that assms
    by (simp add: GetDatabaseInfo_eq stored_Database_def mask_Password_def MaskedPassword_def)
  with list show ?thesis by blast
qed


theorem masking_overwrites_stored_password_witness:
  "map_of (connections with_two) ''ora1'' = Some \<lparr>DB = 3, ConnPool = 8, Adapter = OracleAdapter\<rparr>
   \<and> Password (heap with_two 3) \<noteq> []
   \<and> registry_ok with_two
   \<and> map_option Password (stored_Database with_two ''ora1'') = Some ''tiger''
   \<and> map_option Password (stored_Database (snd (databaseService_ListDatabases with_two)) ''ora1'')
        = Some ''****''
   \<and> fst (databaseService_GetDatabaseInfo ''ora1'' with_two) = Inr 3
   \<and> map_option Password
        (stored_Database (snd (databaseService_GetDatabaseInfo ''ora1'' with_two)) ''ora1'')
        = Some ''****''"
proof -
  have present: "map_of (connections with_two) ''ora1''
      = Some \<lparr>DB = 3, ConnPool = 8, Adapter = OracleAdapter\<rparr>"
    by (simp add: with_two_def)
  have pw: "Password (heap with_two (DB \<lparr>DB = 3, ConnPool = 8, Adapter = OracleAdapter\<rparr>)) \<noteq> []"
    by (simp add: with_two_def db_ora1_def)
  have ok: "registry_ok with_two"
    by (simp add: registry_ok_def with_two_def with_pg1_def cold_start_def db_pg1_def db_ora1_def)
  have before: "map_option Password (stored_Database with_two ''ora1'') = Some ''tiger''"
    by (simp add: stored_Database_def with_two_def db_ora1_def)
  from masking_overwrites_stored_password [OF present pw] present pw ok before
  show ?thesis by simp
qed

section \<open>The consistency of the registry is kept by the service\<close>

lemma registry_ok_cold_start: "registry_ok cold_start"
  by (simp add: registry_ok_def cold_start_def)

lemma registry_ok_frame:
  assumes "registry_ok w" and "set (connections w') \<subseteq> set (connections w)"
    and "\<forall>p. ID (heap w' p) = ID (heap w p)"
  shows "registry_ok w'"
  using assms by (auto simp: registry_ok_def)

lemma set_update_subset: "set (AList.update k v al) \<subseteq> insert (k, v) (set al)"
  by (induction al) auto

lemma set_delete_subset: "set (AList.delete k al) \<subseteq> set al"
  by (auto simp: AList.delete_eq)

lemma IsConnected_IDs:
  "ID (heap (snd (ConnectionManager_IsConnected drv dbID w)) p) = ID (heap w p)"
  by (auto simp: ConnectionManager_IsConnected_def sql_defs split: option.splits prod.splits)

lemma Disconnect_frame:
  "set (connections (snd (ConnectionManager_Disconnect drv dbID w))) \<subseteq> set (connections w)"
  "ID (heap (snd (ConnectionManager_Disconnect drv dbID w)) p) = ID (heap w p)"
  using set_delete_subset [of dbID "connections w"]
  by (auto simp: ConnectionManager_Disconnect_def sql_defs split: option.splits prod.splits)

lemma registry_ok_IsConnected:
  "registry_ok w \<Longrightarrow> registry_ok (snd (ConnectionManager_IsConnected drv dbID w))"
  by (erule registry_ok_frame) (simp_all add: IsConnected_frame IsConnected_IDs)

lemma registry_ok_Disconnect:
  "registry_ok w \<Longrightarrow> registry_ok (snd (ConnectionManager_Disconnect drv dbID w))"
  by (erule registry_ok_frame) (simp_all add: Disconnect_frame)

lemma registry_ok_DisconnectDatabase:
  assumes "registry_ok w"
  shows "registry_ok (snd (databaseService_DisconnectDatabase drv dbID w))"
proof -
  have "registry_ok (snd (ConnectionManager_IsConnected drv dbID w))"
    using assms by (rule registry_ok_IsConnected)
  moreover have "registry_ok (snd (ConnectionManager_Disconnect drv dbID
      (snd (ConnectionManager_IsConnected drv dbID w))))"
    using calculation by (rule registry_ok_Disconnect)
  ultimately show ?thesis
    using assms
    by (auto simp: databaseService_DisconnectDatabase_def
        split: prod.splits bool.splits option.splits)
qed

lemma registry_ok_ListDatabases:
  "registry_ok w \<Longrightarrow> registry_ok (snd (databaseService_ListDatabases w))"
  by (erule registry_ok_frame) (simp_all add: ListDatabases_eq)

lemma registry_ok_GetDatabaseInfo:
  "registry_ok w \<Longrightarrow> registry_ok (snd (databaseService_GetDatabaseInfo dbID w))"
  by (erule registry_ok_frame)
     (auto simp: databaseService_GetDatabaseInfo_def ConnectionManager_ListConnections_def
        mask_Password_def split: option.splits)

lemma Adapter_Connect_frame:
  "heap (snd (Adapter_Connect a drv db w)) = heap w"
  "connections (snd (Adapter_Connect a drv db w)) = connections w"
  by (cases a; auto simp: Adapter_Connect_def PostgresAdapter_Connect_def
        OracleAdapter_Connect_def sql_defs Let_def split: sum.splits option.splits prod.splits)+

lemma registry_ok_Connect:
  assumes "registry_ok w" and "ID (heap w db) \<noteq> []"
  shows "registry_ok (snd (ConnectionManager_Connect drv db w))"
proof (cases "map_of (connections w) (ID (heap w db)) \<noteq> None")
  case True
  with assms show ?thesis by (simp add: ConnectionManager_Connect_def)
next
  case absent: False
  show ?thesis
  proof (cases "createAdapter (Type (heap w db))")
    case (Inl err)
    with absent assms show ?thesis by (simp add: ConnectionManager_Connect_def)
  next
    case (Inr adapter)
    obtain r w1 where a: "Adapter_Connect adapter drv db w = (r, w1)"
      by (cases "Adapter_Connect adapter drv db w")
    from Adapter_Connect_frame [of adapter drv db w] a
    have w1: "heap w1 = heap w" "connections w1 = connections w" by simp_all
    with assms have ok1: "registry_ok w1" by (simp add: registry_ok_def)
    show ?thesis
    proof (cases r)
      case (Inl err)
      with absent Inr a ok1 show ?thesis by (simp add: ConnectionManager_Connect_def)
    next
      case pool: (Inr connPool)
      show ?thesis
      proof (cases "PingContext drv (now w1) connPool")
        case (Some err)
        with absent Inr a pool ok1 show ?thesis
          by (simp add: ConnectionManager_Connect_def sql_defs registry_ok_def)
      next
        case None
        with absent Inr a pool
        have "snd (ConnectionManager_Connect drv db w) =
            set_Status db Connected
              (w1\<lparr>now := Suc (now w1),
                   connections := AList.update (ID (heap w db))
                      \<lparr>DB = db, ConnPool = connPool, Adapter = adapter\<rparr> (connections w)\<rparr>)"
          by (simp add: ConnectionManager_Connect_def sql_defs w1)
        with assms w1 set_update_subset [of "ID (heap w db)"
            "\<lparr>DB = db, ConnPool = connPool, Adapter = adapter\<rparr>" "connections w"]
        show ?thesis
          by (auto simp: registry_ok_def set_Status_def)
      qed
    qed
  qed
qed

lemma registry_ok_RegisterDatabase:
  assumes "registry_ok w"
  shows "registry_ok (snd (databaseService_RegisterDatabase drv db w))"
proof (cases "Validate (heap w db)")
  case (Some err)
  with assms show ?thesis by (simp add: databaseService_RegisterDatabase_def)
next
  case None
  then have "ID (heap w db) \<noteq> []"
    by (auto simp: Validate_def split: if_splits)
  with assms have "registry_ok (snd (ConnectionManager_Connect drv db w))"
    by (rule registry_ok_Connect)
  with None assms show ?thesis
    by (auto simp: databaseService_RegisterDatabase_def split: prod.splits option.splits)
qed


lemma Adapter_ExecuteQuery_frame:
  "heap (snd (Adapter_ExecuteQuery a drv conn query w)) = heap w"
  "connections (snd (Adapter_ExecuteQuery a drv conn query w)) = connections w"
  by (cases a; simp add: Adapter_ExecuteQuery_def PostgresAdapter_ExecuteQuery_def
        OracleAdapter_ExecuteQuery_def Adapter_ExecuteQuery_body_def DB_QueryContext_def
        split: sum.splits option.splits)+

lemma ConnectionManager_ExecuteQuery_frame:
  "heap (snd (ConnectionManager_ExecuteQuery drv dbID query w)) = heap w
   \<and> connections (snd (ConnectionManager_ExecuteQuery drv dbID query w)) = connections w"
proof (cases "map_of (connections w) dbID")
  case None
  then show ?thesis by (simp add: ConnectionManager_ExecuteQuery_def)
next
  case (Some conn)
  obtain r w1 where e: "Adapter_ExecuteQuery (Adapter conn) drv (ConnPool conn) query w = (r, w1)"
    by (cases "Adapter_ExecuteQuery (Adapter conn) drv (ConnPool conn) query w")
  from Adapter_ExecuteQuery_frame [of "Adapter conn" drv "ConnPool conn" query w] e
  have "heap w1 = heap w" "connections w1 = connections w" by simp_all
  with Some e show ?thesis
    by (cases r) (simp_all add: ConnectionManager_ExecuteQuery_def)
qed

lemma registry_ok_ExecuteQuery:
  assumes "registry_ok w"
  shows "registry_ok (snd (databaseService_ExecuteQuery drv dbID query w))"
proof -
  have 1: "registry_ok (snd (ConnectionManager_IsConnected drv dbID w))"
    using assms by (rule registry_ok_IsConnected)
  then have 2: "registry_ok (snd (ConnectionManager_ExecuteQuery drv dbID query
      (snd (ConnectionManager_IsConnected drv dbID w))))"
    by (rule registry_ok_frame) (simp_all add: ConnectionManager_ExecuteQuery_frame)
  from assms 1 2 show ?thesis
    by (auto simp: databaseService_ExecuteQuery_def
        split: prod.splits bool.splits sum.splits)
qed

end
